theory Spec2Isabelle
  imports Complex_Main "HOL-Library.Sublist"
begin

section \<open>JavaScript string primitives\<close>

text \<open>
  A JavaScript string is a sequence of UTF-16 code units. The model covers the code units
  below 256 (ASCII and Latin-1), one \<^typ>\<open>char\<close> each; every keyword, marker and canned
  sentence of the program is ASCII.
\<close>

definition isWhiteSpace :: "char \<Rightarrow> bool" where
  \<comment> \<open>what \<open>String.prototype.trim\<close> strips: TAB, LF, VT, FF, CR, SP, NBSP\<close>
  "isWhiteSpace c \<longleftrightarrow>
     c \<in> set [CHR 0x09, CHR 0x0A, CHR 0x0B, CHR 0x0C, CHR 0x0D, CHR 0x20, CHR 0xA0]"

definition trim :: "string \<Rightarrow> string" where
  "trim s = rev (dropWhile isWhiteSpace (rev (dropWhile isWhiteSpace s)))"

definition toLowerChar :: "char \<Rightarrow> char" where
  "toLowerChar c =
     (let n = (of_char c :: nat)
      in if (65 \<le> n \<and> n \<le> 90) \<or> (192 \<le> n \<and> n \<le> 222 \<and> n \<noteq> 215)
         then char_of (n + 32) else c)"

definition toLowerCase :: "string \<Rightarrow> string" where
  "toLowerCase s = map toLowerChar s"

definition includesStr :: "string \<Rightarrow> string \<Rightarrow> bool" where
  \<comment> \<open>\<open>s.includes(p)\<close>: \<open>p\<close> occurs in \<open>s\<close> as a contiguous run\<close>
  "includesStr s p = sublist p s"

definition matchI :: "string list \<Rightarrow> string \<Rightarrow> bool" where
  \<comment> \<open>truthiness of \<open>s.match(/a1|a2|...|an/i)\<close> for lower-case literal alternatives\<close>
  "matchI alts s = list_ex (includesStr (toLowerCase s)) alts"

fun splitAt :: "string \<Rightarrow> string \<Rightarrow> (string \<times> string) option" where
  \<comment> \<open>leftmost occurrence of \<open>p\<close>: the text before it and the text after it\<close>
  "splitAt p [] = (if p = [] then Some ([], []) else None)"
| "splitAt p (c # cs) =
     (if prefix p (c # cs) then Some ([], drop (length p) (c # cs))
      else map_option (\<lambda>(b, a). (c # b, a)) (splitAt p cs))"

definition isLineTerminator :: "char \<Rightarrow> bool" where
  \<comment> \<open>what \<open>.\<close> refuses to match: LF and CR\<close>
  "isLineTerminator c \<longleftrightarrow> c = CHR 0x0A \<or> c = CHR 0x0D"

definition marker :: string where
  "marker = ''LOCATION_SEARCH:''"

definition matchMarker :: "string \<Rightarrow> string option" where
  \<comment> \<open>capture group 1 of \<open>s.match(/LOCATION_SEARCH:([^\n"]*)/)\<close>, None for no match\<close>
  "matchMarker s =
     (case splitAt marker s of
        None \<Rightarrow> None
      | Some (before, after) \<Rightarrow>
          Some (takeWhile (\<lambda>c. c \<noteq> CHR 0x0A \<and> c \<noteq> CHR 0x22) after))"

definition stripMarker :: "string \<Rightarrow> string" where
  \<comment> \<open>\<open>s.replace(/LOCATION_SEARCH:.*/, '')\<close>: the first match only\<close>
  "stripMarker s =
     (case splitAt marker s of
        None \<Rightarrow> s
      | Some (before, after) \<Rightarrow> before @ dropWhile (\<lambda>c. \<not> isLineTerminator c) after)"

section \<open>The oracle client: \<open>queryLLM\<close>\<close>

datatype js_error = Error string

datatype endpoint = OpenWebUI | Ollama

text \<open>
  A value of a JSON body. The content field of an oracle answer
  (\<open>data.choices[0].message.content\<close>, \<open>data.response\<close>) can hold any of them: the code
  tests it for truthiness only.
\<close>

datatype js_value =
  JNull
| JBool bool
| JNumber real
| JString string
| JArray "js_value list"
| JObject "(string \<times> js_value) list"

fun truthyValue :: "js_value \<Rightarrow> bool" where
  "truthyValue JNull = False"
| "truthyValue (JBool b) = b"
| "truthyValue (JNumber x) = (x \<noteq> 0)"
| "truthyValue (JString s) = (s \<noteq> [])"
| "truthyValue (JArray xs) = True"
| "truthyValue (JObject fields) = True"

text \<open>
  What one \<open>axios.post\<close> does: it rejects (network error, timeout after 15 s, error
  status), or it resolves with a body whose content field is absent (\<open>undefined\<close> at the
  end of the optional chain) or holds a value.
\<close>

datatype http_outcome = Rejected string | Resolved "js_value option"

record oracle_env =
  openWebUI :: "string \<Rightarrow> http_outcome"
  ollama :: "string \<Rightarrow> http_outcome"

type_synonym call_log = "(endpoint \<times> string) list"

definition sanitizeInput :: "string \<Rightarrow> string" where
  "sanitizeInput input = take 500 (trim input)"

definition postOpenWebUI :: "oracle_env \<Rightarrow> string \<Rightarrow> js_error + js_value" where
  "postOpenWebUI env p =
     (case openWebUI env p of
        Rejected msg \<Rightarrow> Inl (Error msg)
      | Resolved content \<Rightarrow>
          (case content of
             Some v \<Rightarrow>
               if truthyValue v then Inr v
               else Inl (Error ''Invalid response format from Open WebUI'')
           | None \<Rightarrow> Inl (Error ''Invalid response format from Open WebUI'')))"

definition postOllama :: "oracle_env \<Rightarrow> string \<Rightarrow> js_error + js_value" where
  "postOllama env p =
     (case ollama env p of
        Rejected msg \<Rightarrow> Inl (Error msg)
      | Resolved content \<Rightarrow>
          (case content of
             Some v \<Rightarrow>
               if truthyValue v then Inr v
               else Inl (Error ''Invalid response format from Ollama'')
           | None \<Rightarrow> Inl (Error ''Invalid response format from Ollama'')))"

definition queryLLM :: "oracle_env \<Rightarrow> string \<Rightarrow> (js_error + js_value) \<times> call_log" where
  "queryLLM env prompt =
     (let sanitizedPrompt = sanitizeInput prompt
      in if sanitizedPrompt = [] then (Inr (JString ''Invalid input provided''), [])
         else
           (case postOpenWebUI env sanitizedPrompt of
              Inr content \<Rightarrow> (Inr content, [(OpenWebUI, sanitizedPrompt)])
            | Inl openWebUIError \<Rightarrow>
                (case postOllama env sanitizedPrompt of
                   Inr response \<Rightarrow>
                     (Inr response, [(OpenWebUI, sanitizedPrompt), (Ollama, sanitizedPrompt)])
                 | Inl ollamaError \<Rightarrow>
                     (Inr (JString ''LLM service unavailable. Please try again later.''),
                      [(OpenWebUI, sanitizedPrompt), (Ollama, sanitizedPrompt)]))))"

section \<open>The intent classifier: the \<open>POST /api/ask\<close> handler\<close>

definition ruleStage :: "string \<Rightarrow> string option \<times> string" where
  \<comment> \<open>the if/else-if chain: \<open>(searchType, responseText)\<close>\<close>
  "ruleStage normalizedMessage =
     (if includesStr normalizedMessage ''atm'' then
        (Some ''ATM'', ''Saya akan carikan ATM untuk Anda.'')
      else if matchI [''restoran'', ''restaurant'', ''makan'', ''kuliner'', ''tempat makan'',
                      ''warung'', ''cafe'', ''gultik''] normalizedMessage then
        (Some ''restaurants'', ''Saya akan carikan restoran untuk Anda.'')
      else if matchI [''apotek'', ''pharmacy'', ''obat'', ''farmasi''] normalizedMessage then
        (Some ''pharmacy'', ''Saya akan carikan apotek untuk Anda.'')
      else if matchI [''spbu'', ''gas station'', ''bensin'', ''pertamina'', ''shell'', ''pom'']
                normalizedMessage then
        (Some ''gas station'', ''Saya akan carikan SPBU untuk Anda.'')
      else if matchI [''rumah sakit'', ''hospital'', ''rs '', ''klinik''] normalizedMessage then
        (Some ''hospitals'', ''Saya akan carikan rumah sakit untuk Anda.'')
      else if matchI [''hotel'', ''penginapan'', ''homestay''] normalizedMessage then
        (Some ''hotels'', ''Saya akan carikan hotel untuk Anda.'')
      else (None, ''Saya akan membantu Anda.''))"

definition truthy :: "string option \<Rightarrow> bool" where
  \<comment> \<open>JavaScript truthiness of a value that is null or a string\<close>
  "truthy v = (case v of None \<Rightarrow> False | Some s \<Rightarrow> s \<noteq> [])"

definition llmPrompt :: "string \<Rightarrow> string" where
  "llmPrompt message =
     ''Analyze: '' @ [CHR 0x22] @ message @ [CHR 0x22] @
     ''. If location search, respond: '' @ [CHR 0x22] @
     ''Saya akan carikan [item] untuk Anda. LOCATION_SEARCH:[type]'' @ [CHR 0x22] @
     '' where type is ATM, restaurants, pharmacy, gas station, hospitals, or hotels. If not location search, respond helpfully in Indonesian.''"

record ask_reply =
  reply :: string
  userMessage :: string
  mapData :: "string option"

datatype http_response = Json200 ask_reply | Json500

definition interp :: "string option \<Rightarrow> string" where
  \<comment> \<open>\<open>${v}\<close> in a template literal, for a value that is null or a string\<close>
  "interp v = (case v of None \<Rightarrow> ''null'' | Some s \<Rightarrow> s)"

text \<open>
  The three methods the handler calls on \<open>llmResponse\<close>. A text has all three; an array
  has \<open>includes\<close> (membership of an element) and neither \<open>match\<close> nor \<open>replace\<close>; any
  other value has none, and calling a missing method throws a TypeError.
\<close>

definition callIncludes :: "js_value \<Rightarrow> string \<Rightarrow> js_error + bool" where
  "callIncludes v p =
     (case v of
        JString s \<Rightarrow> Inr (includesStr s p)
      | JArray xs \<Rightarrow> Inr (JString p \<in> set xs)
      | _ \<Rightarrow> Inl (Error ''llmResponse.includes is not a function''))"

definition callMatch :: "js_value \<Rightarrow> js_error + string option" where
  "callMatch v =
     (case v of
        JString s \<Rightarrow> Inr (matchMarker s)
      | _ \<Rightarrow> Inl (Error ''llmResponse.match is not a function''))"

definition callReplace :: "js_value \<Rightarrow> js_error + string" where
  "callReplace v =
     (case v of
        JString s \<Rightarrow> Inr (stripMarker s)
      | _ \<Rightarrow> Inl (Error ''llmResponse.replace is not a function''))"

fun isText :: "js_value \<Rightarrow> bool" where
  "isText (JString s) = True"
| "isText v = False"

fun isArray :: "js_value \<Rightarrow> bool" where
  "isArray (JArray xs) = True"
| "isArray v = False"

definition oracleStage ::
  "oracle_env \<Rightarrow> string \<Rightarrow> string option \<Rightarrow> (js_value \<times> string option) \<times> call_log" where
  \<comment> \<open>the \<open>!searchType\<close> branch with its try/catch: \<open>(llmResponse, searchType)\<close> and the
      outbound calls\<close>
  "oracleStage env message searchType =
     (case queryLLM env (llmPrompt message) of
        (Inr llmResponse, calls) \<Rightarrow>
          (case callIncludes llmResponse marker of
             Inr True \<Rightarrow>
               (case callMatch llmResponse of
                  Inr (Some m) \<Rightarrow> ((llmResponse, Some (trim m)), calls)
                | Inr None \<Rightarrow> ((llmResponse, searchType), calls)
                | Inl error \<Rightarrow> ((JString ''Maaf, silakan coba lagi.'', searchType), calls))
           | Inr False \<Rightarrow> ((llmResponse, searchType), calls)
           | Inl error \<Rightarrow> ((JString ''Maaf, silakan coba lagi.'', searchType), calls))
      | (Inl error, calls) \<Rightarrow> ((JString ''Maaf, silakan coba lagi.'', searchType), calls))"

definition askHandler :: "oracle_env \<Rightarrow> string \<Rightarrow> http_response \<times> call_log" where
  \<comment> \<open>\<open>message\<close> is \<open>req.body.message\<close> as the handler reads it, after the validation
      middleware; \<open>mapData\<close> keeps the \<open>searchQuery\<close> field, from which the two URLs are
      built (\<open>encodeURIComponent\<close> throws on a lone surrogate only, which no code unit
      below 256 is); a throw outside the inner try/catch reaches the outer catch, which
      answers with status 500\<close>
  "askHandler env message =
     (let normalizedMessage = trim (toLowerCase message);
          (ruleType, responseText) = ruleStage normalizedMessage;
          ((llmResponse, searchType), calls) =
            (if \<not> truthy ruleType then oracleStage env message ruleType
             else ((JString (responseText @ '' LOCATION_SEARCH:'' @ interp ruleType), ruleType),
                   []));
          mapData = (if truthy searchType then searchType else None)
      in case callReplace llmResponse of
           Inr stripped \<Rightarrow>
             (Json200 \<lparr>reply = trim stripped, userMessage = message, mapData = mapData\<rparr>, calls)
         | Inl error \<Rightarrow> (Json500, calls))"

subsection \<open>The rule list of the specification\<close>

text \<open>
  The specification describes the rule stage as an ordered list of (pattern, category)
  pairs scanned once, first match first. The following definitions state that reading;
  the handler's hand-written chain \<^const>\<open>ruleStage\<close> is compared with it below.
\<close>

datatype category = ATM | Restaurant | Pharmacy | GasStation | Hospital | Hotel

definition priorityOrder :: "category list" where
  "priorityOrder = [ATM, Restaurant, Pharmacy, GasStation, Hospital, Hotel]"

fun ruleMatches :: "category \<Rightarrow> string \<Rightarrow> bool" where
  "ruleMatches ATM n = includesStr n ''atm''"
| "ruleMatches Restaurant n =
     matchI [''restoran'', ''restaurant'', ''makan'', ''kuliner'', ''tempat makan'',
             ''warung'', ''cafe'', ''gultik''] n"
| "ruleMatches Pharmacy n = matchI [''apotek'', ''pharmacy'', ''obat'', ''farmasi''] n"
| "ruleMatches GasStation n =
     matchI [''spbu'', ''gas station'', ''bensin'', ''pertamina'', ''shell'', ''pom''] n"
| "ruleMatches Hospital n = matchI [''rumah sakit'', ''hospital'', ''rs '', ''klinik''] n"
| "ruleMatches Hotel n = matchI [''hotel'', ''penginapan'', ''homestay''] n"

fun searchQuery :: "category \<Rightarrow> string" where
  "searchQuery ATM = ''ATM''"
| "searchQuery Restaurant = ''restaurants''"
| "searchQuery Pharmacy = ''pharmacy''"
| "searchQuery GasStation = ''gas station''"
| "searchQuery Hospital = ''hospitals''"
| "searchQuery Hotel = ''hotels''"

fun cannedReply :: "category \<Rightarrow> string" where
  "cannedReply ATM = ''Saya akan carikan ATM untuk Anda.''"
| "cannedReply Restaurant = ''Saya akan carikan restoran untuk Anda.''"
| "cannedReply Pharmacy = ''Saya akan carikan apotek untuk Anda.''"
| "cannedReply GasStation = ''Saya akan carikan SPBU untuk Anda.''"
| "cannedReply Hospital = ''Saya akan carikan rumah sakit untuk Anda.''"
| "cannedReply Hotel = ''Saya akan carikan hotel untuk Anda.''"

definition firstMatch :: "string \<Rightarrow> category option" where
  "firstMatch n = find (\<lambda>c. ruleMatches c n) priorityOrder"

section \<open>The location resolver: \<open>GeolocationService\<close>\<close>

text \<open>
  Latitude, longitude and accuracy are JavaScript numbers. The resolver stores and copies
  them and tests them for truthiness, and computes nothing from them, so the model carries
  them as \<^typ>\<open>real\<close>. Timestamps are the integers of \<open>Date.now()\<close>.
\<close>

datatype location_source = Gps | Network | Ip | Fallback

record LocationCoords =
  lat :: real
  lng :: real
  accuracy :: "real option"
  source :: location_source

subsection \<open>The browser and the network, as the service sees them\<close>

record PositionOptions =
  enableHighAccuracy :: bool
  timeout :: nat
  maximumAge :: nat

datatype GeolocationPosition = Position real real real
  \<comment> \<open>\<open>coords.latitude\<close>, \<open>coords.longitude\<close>, \<open>coords.accuracy\<close>\<close>

datatype GeolocationPositionError = PositionError nat string
  \<comment> \<open>\<open>code\<close> (1 permission denied, 2 position unavailable, 3 timeout) and \<open>message\<close>\<close>

text \<open>
  One \<open>getCurrentPosition\<close> request raced against the service's own \<open>setTimeout\<close>:
  the success callback runs first, the error callback runs first, or the timer fires first.
\<close>

datatype position_outcome =
  PositionFound GeolocationPosition
| PositionFailed GeolocationPositionError
| TimerFired

text \<open>
  The body of the \<open>ipapi.co\<close> response: \<open>response.json()\<close> rejects with a message, or
  yields an object whose \<open>latitude\<close> and \<open>longitude\<close> fields are absent or numbers.
  The request is \<open>fetch(url, {timeout: 5000} as RequestInit)\<close>; \<open>fetch\<close> knows no
  \<open>timeout\<close> member and ignores it, and no timer of the service races the request, so a
  request that never settles is an outcome of its own: \<open>FetchPending\<close>.
\<close>

datatype ip_body = InvalidJson string | IpData "real option" "real option"

datatype fetch_outcome =
  FetchRejected string
| FetchResponse bool nat ip_body
  \<comment> \<open>\<open>response.ok\<close>, \<open>response.status\<close>, the body\<close>
| FetchPending
  \<comment> \<open>neither the request nor the reading of its body ever settles\<close>

datatype tier_call = GetCurrentPosition PositionOptions | FetchIpapi

record geo_env =
  geolocation :: "(PositionOptions \<Rightarrow> position_outcome) option"
    \<comment> \<open>\<open>navigator.geolocation\<close>; None where the browser has none\<close>
  ipapi :: fetch_outcome
  timeZone :: "js_error + string"
    \<comment> \<open>\<open>Intl.DateTimeFormat().resolvedOptions().timeZone\<close>, or what it throws\<close>
  setItemThrows :: bool
    \<comment> \<open>whether \<open>localStorage.setItem\<close> throws (storage full or disabled)\<close>
  nowAtCheck :: int
    \<comment> \<open>\<open>Date.now()\<close> as \<open>isCacheValid\<close> reads it\<close>
  nowAtUpdate :: int
    \<comment> \<open>\<open>Date.now()\<close> as \<open>updateCache\<close> reads it\<close>

record service_state =
  cachedLocation :: "LocationCoords option"
  cacheTimestamp :: int
  lastKnownLocation :: "(LocationCoords \<times> int) option"
    \<comment> \<open>the \<open>localStorage\<close> entry \<open>lastKnownLocation\<close>: location and timestamp\<close>

subsection \<open>The service\<close>

definition CACHE_DURATION :: int where
  "CACHE_DURATION = 5 * 60 * 1000"

definition jakarta :: LocationCoords where
  \<comment> \<open>\<open>FALLBACK_LOCATIONS.jakarta\<close>\<close>
  "jakarta = \<lparr>lat = - 6.2088, lng = 106.8456, accuracy = None, source = Fallback\<rparr>"

definition isCacheValid :: "service_state \<Rightarrow> int \<Rightarrow> bool" where
  "isCacheValid st now \<longleftrightarrow>
     cachedLocation st \<noteq> None \<and> now - cacheTimestamp st < CACHE_DURATION"

definition updateCache :: "geo_env \<Rightarrow> LocationCoords \<Rightarrow> service_state \<Rightarrow> service_state" where
  "updateCache env location st =
     (let st' = st\<lparr>cachedLocation := Some location, cacheTimestamp := nowAtUpdate env\<rparr>
      in if setItemThrows env then st'
         else st'\<lparr>lastKnownLocation := Some (location, cacheTimestamp st')\<rparr>)"

definition formatGeolocationError :: "GeolocationPositionError \<Rightarrow> js_error" where
  "formatGeolocationError error =
     (case error of PositionError code message \<Rightarrow>
        Error (if code = 1 then ''Location access denied by user''
               else if code = 2 then ''Location information unavailable''
               else if code = 3 then ''Location request timed out''
               else if message \<noteq> [] then message else ''Unknown geolocation error''))"

definition gpsOptions :: PositionOptions where
  "gpsOptions = \<lparr>enableHighAccuracy = True, timeout = 10000, maximumAge = 2 * 60 * 1000\<rparr>"

definition networkOptions :: PositionOptions where
  "networkOptions = \<lparr>enableHighAccuracy = False, timeout = 5000, maximumAge = 5 * 60 * 1000\<rparr>"

definition watchOptions :: PositionOptions where
  "watchOptions = \<lparr>enableHighAccuracy = False, timeout = 10000, maximumAge = 60000\<rparr>"

definition getGPSLocation :: "geo_env \<Rightarrow> (js_error + LocationCoords) \<times> tier_call list" where
  "getGPSLocation env =
     (case geolocation env of
        None \<Rightarrow> (Inl (Error ''Geolocation not supported''), [])
      | Some getCurrentPosition \<Rightarrow>
          ((case getCurrentPosition gpsOptions of
              TimerFired \<Rightarrow> Inl (Error ''GPS timeout after 10 seconds'')
            | PositionFound (Position la lo ac) \<Rightarrow>
                Inr \<lparr>lat = la, lng = lo, accuracy = Some ac, source = Gps\<rparr>
            | PositionFailed error \<Rightarrow> Inl (formatGeolocationError error)),
           [GetCurrentPosition gpsOptions]))"

definition getNetworkLocation :: "geo_env \<Rightarrow> (js_error + LocationCoords) \<times> tier_call list" where
  "getNetworkLocation env =
     (case geolocation env of
        None \<Rightarrow> (Inl (Error ''Geolocation not supported''), [])
      | Some getCurrentPosition \<Rightarrow>
          ((case getCurrentPosition networkOptions of
              TimerFired \<Rightarrow> Inl (Error ''Network location timeout after 5 seconds'')
            | PositionFound (Position la lo ac) \<Rightarrow>
                Inr \<lparr>lat = la, lng = lo, accuracy = Some ac, source = Network\<rparr>
            | PositionFailed error \<Rightarrow> Inl (formatGeolocationError error)),
           [GetCurrentPosition networkOptions]))"

fun showNat :: "nat \<Rightarrow> string" where
  \<comment> \<open>a status code in a template literal: its decimal digits\<close>
  "showNat n =
     (if n < 10 then [char_of (48 + n)] else showNat (n div 10) @ [char_of (48 + n mod 10)])"

declare showNat.simps [simp del]

definition falsyNumber :: "real option \<Rightarrow> bool" where
  \<comment> \<open>\<open>!v\<close> for a field that is absent or a number\<close>
  "falsyNumber v = (case v of None \<Rightarrow> True | Some x \<Rightarrow> x = 0)"

definition getIPLocation ::
  "geo_env \<Rightarrow> (js_error + LocationCoords) option \<times> tier_call list" where
  \<comment> \<open>None: the promise stays pending\<close>
  "getIPLocation env =
     ((case ipapi env of
         FetchPending \<Rightarrow> None
       | FetchRejected msg \<Rightarrow> Some (Inl (Error (''IP location failed: '' @ msg)))
       | FetchResponse ok status body \<Rightarrow>
           if \<not> ok then
             Some (Inl (Error (''IP location failed: '' @ ''IP location API error: '' @
                               showNat status)))
           else
             (case body of
                InvalidJson msg \<Rightarrow> Some (Inl (Error (''IP location failed: '' @ msg)))
              | IpData latitude longitude \<Rightarrow>
                  if falsyNumber latitude \<or> falsyNumber longitude then
                    Some (Inl (Error (''IP location failed: '' @ ''Invalid IP location data'')))
                  else
                    Some (Inr \<lparr>lat = the latitude, lng = the longitude, accuracy = None,
                               source = Ip\<rparr>))),
      [FetchIpapi])"

definition getFallbackLocation :: "geo_env \<Rightarrow> LocationCoords" where
  "getFallbackLocation env =
     (case timeZone env of
        Inr timezone \<Rightarrow>
          if includesStr timezone ''Jakarta'' \<or> includesStr timezone ''Asia/Jakarta'' then jakarta
          else jakarta
      | Inl error \<Rightarrow> jakarta)"

definition getCurrentLocation ::
  "geo_env \<Rightarrow> service_state \<Rightarrow>
     (js_error + LocationCoords) option \<times> service_state \<times> tier_call list" where
  \<comment> \<open>the result (None: the promise stays pending; a rejection would be \<open>Inl\<close>), the state
      left behind, the sources called\<close>
  "getCurrentLocation env st =
     (if isCacheValid st (nowAtCheck env) then (Some (Inr (the (cachedLocation st))), st, [])
      else
        (case getGPSLocation env of
           (Inr gpsLocation, c1) \<Rightarrow>
             (Some (Inr gpsLocation), updateCache env gpsLocation st, c1)
         | (Inl gpsError, c1) \<Rightarrow>
             (case getNetworkLocation env of
                (Inr networkLocation, c2) \<Rightarrow>
                  (Some (Inr networkLocation), updateCache env networkLocation st, c1 @ c2)
              | (Inl networkError, c2) \<Rightarrow>
                  (case getIPLocation env of
                     (Some (Inr ipLocation), c3) \<Rightarrow>
                       (Some (Inr ipLocation), updateCache env ipLocation st, c1 @ c2 @ c3)
                   | (Some (Inl ipError), c3) \<Rightarrow>
                       (Some (Inr (getFallbackLocation env)), st, c1 @ c2 @ c3)
                   | (None, c3) \<Rightarrow> (None, st, c1 @ c2 @ c3)))))"

definition watchPositionUpdate ::
  "geo_env \<Rightarrow> GeolocationPosition \<Rightarrow> service_state \<Rightarrow> LocationCoords \<times> service_state" where
  \<comment> \<open>the success callback of \<open>watchPosition\<close>, which subscribes with \<^const>\<open>watchOptions\<close>:
      the location handed to \<open>callback\<close> and the state left behind\<close>
  "watchPositionUpdate env position st =
     (case position of Position la lo ac \<Rightarrow>
        (let location = \<lparr>lat = la, lng = lo, accuracy = Some ac, source = Gps\<rparr>
         in (location, updateCache env location st)))"

section \<open>Example environments\<close>

text \<open>Concrete oracles, browsers and cache states, used to run the model below.\<close>

definition endpointFails :: "http_outcome \<Rightarrow> bool" where
  \<comment> \<open>the request rejects, or resolves without a usable content field\<close>
  "endpointFails r =
     (case r of Rejected msg \<Rightarrow> True | Resolved None \<Rightarrow> True
      | Resolved (Some v) \<Rightarrow> \<not> truthyValue v)"

definition failingOracle :: oracle_env where
  "failingOracle =
     \<lparr>openWebUI = (\<lambda>p. Rejected ''timeout of 15000ms exceeded''),
      ollama = (\<lambda>p. Resolved None)\<rparr>"

definition markerOnlyOracle :: oracle_env where
  "markerOnlyOracle =
     \<lparr>openWebUI = (\<lambda>p. Resolved (Some (JString ''LOCATION_SEARCH:restaurants''))),
      ollama = (\<lambda>p. Rejected ''ECONNREFUSED'')\<rparr>"

definition twoMarkerOracle :: oracle_env where
  "twoMarkerOracle =
     \<lparr>openWebUI = (\<lambda>p. Resolved (Some (JString (''Baik. LOCATION_SEARCH:restaurants'' @
                                                  [CHR 0x0A] @ ''LOCATION_SEARCH:restaurants'')))),
      ollama = (\<lambda>p. Rejected ''ECONNREFUSED'')\<rparr>"

definition restaurantOracle :: oracle_env where
  "restaurantOracle =
     \<lparr>openWebUI = (\<lambda>p. Rejected ''ECONNREFUSED''),
      ollama = (\<lambda>p. Resolved (Some (JString
                  ''Saya akan carikan restoran untuk Anda. LOCATION_SEARCH:restaurants'')))\<rparr>"

definition arrayOracle :: oracle_env where
  \<comment> \<open>the first endpoint answers with its content as an array of parts\<close>
  "arrayOracle =
     \<lparr>openWebUI = (\<lambda>p. Resolved (Some (JArray [JString ''Halo! Ada yang bisa saya bantu?'']))),
      ollama = (\<lambda>p. Rejected ''ECONNREFUSED'')\<rparr>"

definition numberOracle :: oracle_env where
  "numberOracle =
     \<lparr>openWebUI = (\<lambda>p. Rejected ''ECONNREFUSED''),
      ollama = (\<lambda>p. Resolved (Some (JNumber 42)))\<rparr>"

definition offlineEnv :: geo_env where
  "offlineEnv =
     \<lparr>geolocation = Some (\<lambda>options. if enableHighAccuracy options then TimerFired
                                    else PositionFailed (PositionError 1 ''User denied Geolocation'')),
      ipapi = FetchResponse False 429 (InvalidJson []),
      timeZone = Inr ''Europe/Berlin'',
      setItemThrows = False,
      nowAtCheck = 1000000,
      nowAtUpdate = 1010000\<rparr>"

definition stalledEnv :: geo_env where
  \<comment> \<open>no position from the browser, and an IP lookup that never settles\<close>
  "stalledEnv =
     \<lparr>geolocation = Some (\<lambda>options. if enableHighAccuracy options then TimerFired
                                    else PositionFailed (PositionError 1 ''User denied Geolocation'')),
      ipapi = FetchPending,
      timeZone = Inr ''Asia/Jakarta'',
      setItemThrows = False,
      nowAtCheck = 1000000,
      nowAtUpdate = 1010000\<rparr>"

definition emptyState :: service_state where
  "emptyState = \<lparr>cachedLocation = None, cacheTimestamp = 0, lastKnownLocation = None\<rparr>"

definition bandungFix :: LocationCoords where
  "bandungFix = \<lparr>lat = - 6.9175, lng = 107.6191, accuracy = Some 25, source = Gps\<rparr>"

definition cachedState :: service_state where
  "cachedState =
     \<lparr>cachedLocation = Some bandungFix, cacheTimestamp = 900000,
      lastKnownLocation = Some (bandungFix, 900000)\<rparr>"

definition lowPowerEnv :: geo_env where
  "lowPowerEnv =
     \<lparr>geolocation = Some (\<lambda>options. if enableHighAccuracy options then TimerFired
                                    else PositionFound (Position (- 6.3) 106.9 1500)),
      ipapi = FetchRejected ''Failed to fetch'',
      timeZone = Inr ''Asia/Jakarta'',
      setItemThrows = False,
      nowAtCheck = 2000000,
      nowAtUpdate = 2012000\<rparr>"

section \<open>Properties of the string primitives\<close>

lemma toLowerChar_idem: "toLowerChar (toLowerChar c) = toLowerChar c"
proof -
  define n where "n = (of_char c :: nat)"
  show ?thesis
  proof (cases "(65 \<le> n \<and> n \<le> 90) \<or> (192 \<le> n \<and> n \<le> 222 \<and> n \<noteq> 215)")
    case True
    then have 1: "toLowerChar c = char_of (n + 32)"
      by (auto simp: toLowerChar_def Let_def n_def)
    have "(of_char (char_of (n + 32) :: char) :: nat) = n + 32"
      using True by (auto simp: of_char_of)
    then show ?thesis
      using True unfolding 1 by (auto simp: toLowerChar_def Let_def)
  next
    case False
    then have "toLowerChar c = c"
      by (auto simp: toLowerChar_def Let_def n_def)
    then show ?thesis by simp
  qed
qed

lemma set_trim_subset: "set (trim s) \<subseteq> set s"
  unfolding trim_def
  by (metis set_rev set_dropWhileD subsetI)

lemma toLowerCase_normalized:
  "toLowerCase (trim (toLowerCase m)) = trim (toLowerCase m)"
proof -
  have "\<forall>c \<in> set (trim (toLowerCase m)). toLowerChar c = c"
    using set_trim_subset [of "toLowerCase m"]
    by (auto simp: toLowerCase_def toLowerChar_idem)
  then show ?thesis
    by (simp add: toLowerCase_def map_idI)
qed

text \<open>On a normalized message the case-insensitive patterns are plain substring tests.\<close>

lemma matchI_normalized:
  "matchI alts (trim (toLowerCase m)) = list_ex (includesStr (trim (toLowerCase m))) alts"
  by (simp add: matchI_def toLowerCase_normalized)

lemma dropWhile_keeps_infix:
  "p \<noteq> [] \<Longrightarrow> \<not> P (hd p) \<Longrightarrow> \<exists>ps'. dropWhile P (ps @ p @ ss) = ps' @ p @ ss"
proof (induction ps)
  case Nil
  then have "dropWhile P (p @ ss) = p @ ss"
    by (cases p) simp_all
  then show ?case by (metis append_Nil)
next
  case (Cons a ps)
  then show ?case
    by (cases "P a") (auto intro: exI [of _ "a # ps"])
qed

lemma sublist_trim:
  assumes "sublist p s" "p \<noteq> []" "\<not> isWhiteSpace (hd p)" "\<not> isWhiteSpace (last p)"
  shows "sublist p (trim s)"
proof -
  obtain ps ss where s: "s = ps @ p @ ss"
    using assms(1) by (auto simp: sublist_def)
  obtain ps' where 1: "dropWhile isWhiteSpace s = ps' @ p @ ss"
    using dropWhile_keeps_infix [of p isWhiteSpace ps ss] assms(2,3) s by blast
  have "rev p \<noteq> []" "\<not> isWhiteSpace (hd (rev p))"
    using assms by (simp_all add: hd_rev)
  from dropWhile_keeps_infix [of "rev p" isWhiteSpace "rev ss" "rev ps'"] this
  obtain ss' where 2: "dropWhile isWhiteSpace (rev ss @ rev p @ rev ps') = ss' @ rev p @ rev ps'"
    by blast
  have "trim s = ps' @ p @ rev ss'"
    by (simp add: trim_def 1 2)
  then show ?thesis by (simp add: sublist_def) blast
qed

lemma sublist_trim_self: "sublist (trim s) s"
proof -
  have "suffix (dropWhile isWhiteSpace (rev (dropWhile isWhiteSpace s))) (rev (dropWhile isWhiteSpace s))"
    by (rule suffix_dropWhile)
  then have "prefix (trim s) (dropWhile isWhiteSpace s)"
    by (simp add: trim_def suffix_to_prefix)
  then have "sublist (trim s) (dropWhile isWhiteSpace s)" by auto
  moreover have "sublist (dropWhile isWhiteSpace s) s"
    using suffix_dropWhile by blast
  ultimately show ?thesis
    using sublist_order.order_trans by blast
qed

lemma trim_nonempty_iff: "trim s \<noteq> [] \<longleftrightarrow> (\<exists>c\<in>set s. \<not> isWhiteSpace c)"
proof
  assume "trim s \<noteq> []"
  then show "\<exists>c\<in>set s. \<not> isWhiteSpace c"
    by (auto simp: trim_def dest: set_dropWhileD)
next
  assume "\<exists>c\<in>set s. \<not> isWhiteSpace c"
  then obtain c where c: "c \<in> set s" "\<not> isWhiteSpace c" by blast
  then have "sublist [c] s"
    by (metis append_Cons append_Nil in_set_conv_decomp sublist_appendI)
  then have "sublist [c] (trim s)"
    using c by (intro sublist_trim) simp_all
  then show "trim s \<noteq> []" by auto
qed

lemma splitAt_None_iff: "splitAt p s = None \<longleftrightarrow> \<not> sublist p s"
  by (induction s) (auto simp: sublist_Cons_right)

lemma splitAt_Some_decomp: "splitAt p s = Some (b, a) \<Longrightarrow> s = b @ p @ a"
proof (induction s arbitrary: b)
  case Nil
  then show ?case by (auto split: if_splits)
next
  case (Cons c cs)
  show ?case
  proof (cases "prefix p (c # cs)")
    case True
    then show ?thesis using Cons.prems
      by (auto simp: prefix_def)
  next
    case False
    then obtain b' where "splitAt p cs = Some (b', a)" "b = c # b'"
      using Cons.prems by auto
    then show ?thesis using Cons.IH by simp
  qed
qed

lemma splitAt_first:
  assumes "p \<noteq> []" "\<not> sublist p (b @ butlast p)"
  shows "splitAt p (b @ p @ a) = Some (b, a)"
  using assms(2)
proof (induction b)
  case Nil
  from assms(1) obtain x xs where "p = x # xs" by (cases p) auto
  then show ?case by simp
next
  case (Cons x b)
  have np: "\<not> prefix p ((x # b) @ p @ a)"
  proof
    assume pre: "prefix p ((x # b) @ p @ a)"
    have "prefix ((x # b) @ butlast p) ((x # b) @ p @ a)"
      using assms(1) by (metis append_butlast_last_id append.assoc prefixI same_prefix_prefix)
    moreover have "length p \<le> length ((x # b) @ butlast p)" by simp
    ultimately have "prefix p ((x # b) @ butlast p)"
      using pre prefix_length_prefix by blast
    then show False using Cons.prems by auto
  qed
  have "\<not> sublist p (b @ butlast p)"
    using Cons.prems by (simp add: sublist_Cons_right)
  then have "splitAt p (b @ p @ a) = Some (b, a)" by (rule Cons.IH)
  then show ?case using np by simp
qed

text \<open>
  A pattern whose last character occurs nowhere else in it cannot overlap itself, so its
  first occurrence in \<open>b @ p @ a\<close> is at \<open>b\<close> as soon as \<open>b\<close> does not contain it. The
  marker ends in its only colon.
\<close>

lemma no_border_sublist:
  assumes "p \<noteq> []" "last p \<notin> set (butlast p)" "\<not> sublist p b"
  shows "\<not> sublist p (b @ butlast p)"
  using assms(3)
proof (induction b)
  case Nil
  have "length (butlast p) < length p" using assms(1) by simp
  then show ?case using sublist_length_le [of p "butlast p"] by auto
next
  case (Cons x b)
  have 1: "\<not> sublist p (b @ butlast p)"
    using Cons by (simp add: sublist_Cons_right)
  have 2: "\<not> prefix p ((x # b) @ butlast p)"
  proof
    assume "prefix p ((x # b) @ butlast p)"
    then consider "prefix p (x # b)" | us where "p = (x # b) @ us" "prefix us (butlast p)"
      unfolding prefix_append by blast
    then show False
    proof cases
      case 1
      then show ?thesis using Cons.prems by auto
    next
      case 2
      show ?thesis
      proof (cases "us = []")
        case True
        then show ?thesis using 2 Cons.prems by auto
      next
        case False
        then have "last p = last us" using 2 by simp
        moreover have "last us \<in> set us" using False by simp
        moreover have "set us \<subseteq> set (butlast p)" using 2(2) set_mono_prefix by blast
        ultimately show ?thesis using assms(2) by auto
      qed
    qed
  qed
  show ?case using 1 2 by (simp add: sublist_Cons_right)
qed

lemma splitAt_marker:
  assumes "\<not> includesStr b marker"
  shows "splitAt marker (b @ marker @ a) = Some (b, a)"
proof -
  have "marker \<noteq> []" "last marker \<notin> set (butlast marker)"
    by (simp_all add: marker_def)
  then show ?thesis
    using assms no_border_sublist splitAt_first unfolding includesStr_def by blast
qed

section \<open>The intent classifier\<close>

text \<open>The handler's chain computes the first match of the ordered rule list.\<close>

lemma ruleStage_firstMatch:
  "ruleStage n = (case firstMatch n of Some c \<Rightarrow> (Some (searchQuery c), cannedReply c)
       | None \<Rightarrow> (None, ''Saya akan membantu Anda.''))"
  by (simp add: ruleStage_def firstMatch_def priorityOrder_def)

lemma searchQuery_nonempty: "searchQuery c \<noteq> []"
  by (cases c) simp_all

lemma askHandler_rule:
  assumes "firstMatch (trim (toLowerCase message)) = Some c"
  shows "askHandler env message =
     (Json200 \<lparr>reply = cannedReply c, userMessage = message, mapData = Some (searchQuery c)\<rparr>, [])"
  using assms
  by (cases c)
    (simp_all add: askHandler_def ruleStage_firstMatch truthy_def interp_def trim_def
      callReplace_def stripMarker_def marker_def isWhiteSpace_def isLineTerminator_def)

lemma firstMatch_exists: "ruleMatches c n \<Longrightarrow> \<exists>c'. firstMatch n = Some c'"
  unfolding firstMatch_def priorityOrder_def
  by (cases c) (auto)

text \<open>
  \<open>queryLLM\<close> catches whatever its two requests throw: it always returns a value, a
  text or whatever else the content field held. The prompt of the handler is never empty
  after sanitizing, so the endpoints are tried.
\<close>

lemma llmPrompt_sanitized: "sanitizeInput (llmPrompt m) \<noteq> []"
proof -
  have "sublist ''A'' (llmPrompt m)"
    unfolding llmPrompt_def by (intro prefix_imp_sublist) simp
  then have "sublist ''A'' (trim (llmPrompt m))"
    by (intro sublist_trim) (simp_all add: isWhiteSpace_def)
  then have "trim (llmPrompt m) \<noteq> []" by auto
  then show ?thesis by (simp add: sanitizeInput_def)
qed

lemma queryLLM_total: "\<exists>v calls. queryLLM env prompt = (Inr v, calls)"
  by (simp add: queryLLM_def Let_def split: sum.splits)

text \<open>The handler on a text from the oracle client, and on a value without \<open>includes\<close>.\<close>

lemma askHandler_oracle:
  assumes "firstMatch (trim (toLowerCase message)) = None"
    and "queryLLM env (llmPrompt message) = (Inr (JString t), calls)"
  shows "askHandler env message =
     (Json200 \<lparr>reply = trim (stripMarker t), userMessage = message,
               mapData = (case matchMarker t of
                            None \<Rightarrow> None
                          | Some m \<Rightarrow> if trim m = [] then None else Some (trim m))\<rparr>, calls)"
proof -
  have n: "matchMarker t = None" if "\<not> includesStr t marker"
    using that by (simp add: matchMarker_def includesStr_def splitAt_None_iff [symmetric])
  have o: "oracleStage env message None =
     ((JString t, map_option trim (matchMarker t)), calls)"
  proof (cases "includesStr t marker")
    case True
    then show ?thesis
      using assms(2)
      by (simp add: oracleStage_def callIncludes_def callMatch_def split: option.splits)
  next
    case False
    then show ?thesis
      using assms(2) n by (simp add: oracleStage_def callIncludes_def)
  qed
  show ?thesis
    using assms(1)
    by (simp add: askHandler_def ruleStage_firstMatch truthy_def o callReplace_def
        split: option.splits)
qed

lemma askHandler_oracle_no_method:
  assumes "firstMatch (trim (toLowerCase message)) = None"
    and "queryLLM env (llmPrompt message) = (Inr v, calls)"
    and "\<not> isText v" "\<not> isArray v"
  shows "askHandler env message =
     (Json200 \<lparr>reply = ''Maaf, silakan coba lagi.'', userMessage = message, mapData = None\<rparr>,
      calls)"
proof -
  have c: "trim (stripMarker ''Maaf, silakan coba lagi.'') = ''Maaf, silakan coba lagi.''"
    by (simp add: stripMarker_def marker_def trim_def isWhiteSpace_def)
  have o: "oracleStage env message None = ((JString ''Maaf, silakan coba lagi.'', None), calls)"
    using assms(2-4) by (cases v) (simp_all add: oracleStage_def callIncludes_def)
  show ?thesis
    using assms(1) c
    by (simp add: askHandler_def ruleStage_firstMatch truthy_def o callReplace_def)
qed

subsection \<open>The rule stage\<close>

text \<open>
  Claim C2. The rule stage is a first-match scan of the six category rules in the order
  ATM, Restaurant, Pharmacy, GasStation, Hospital, Hotel over the trimmed, lower-cased
  message: whenever some rule matches, the handler answers with the category and canned
  sentence of the earliest matching rule in that order, makes no call to the oracle, and
  answers the same whatever the oracle would have said.
\<close>

theorem rule_stage_first_match:
  assumes "ruleMatches c (trim (toLowerCase message))"
  shows "\<exists>i<length priorityOrder.
           ruleMatches (priorityOrder ! i) (trim (toLowerCase message)) \<and>
           (\<forall>j<i. \<not> ruleMatches (priorityOrder ! j) (trim (toLowerCase message))) \<and>
           (\<forall>env. askHandler env message =
              (Json200 \<lparr>reply = cannedReply (priorityOrder ! i), userMessage = message,
                        mapData = Some (searchQuery (priorityOrder ! i))\<rparr>, []))"
proof -
  from firstMatch_exists [OF assms] obtain c' where
    c': "firstMatch (trim (toLowerCase message)) = Some c'" by blast
  then obtain i where i: "i < length priorityOrder" "c' = priorityOrder ! i"
    "ruleMatches (priorityOrder ! i) (trim (toLowerCase message))"
    "\<forall>j<i. \<not> ruleMatches (priorityOrder ! j) (trim (toLowerCase message))"
    unfolding firstMatch_def find_Some_iff by blast
  show ?thesis
    using i askHandler_rule [OF c'] by blast
qed

text \<open>
  The message \<open>Hotel dekat ATM\<close> matches the Hotel rule and the ATM rule; ATM, the earlier
  one, is returned.
\<close>

theorem rule_stage_first_match_witness:
  "ruleMatches Hotel (trim (toLowerCase ''Hotel dekat ATM'')) \<and>
   ruleMatches ATM (trim (toLowerCase ''Hotel dekat ATM'')) \<and>
   askHandler failingOracle ''Hotel dekat ATM'' =
     (Json200 \<lparr>reply = ''Saya akan carikan ATM untuk Anda.'', userMessage = ''Hotel dekat ATM'',
               mapData = Some ''ATM''\<rparr>, [])"
proof -
  have h: "ruleMatches Hotel (trim (toLowerCase ''Hotel dekat ATM''))" by code_simp
  have a: "ruleMatches (priorityOrder ! 0) (trim (toLowerCase ''Hotel dekat ATM''))" by code_simp
  from rule_stage_first_match [OF h] obtain i where
    i: "\<forall>j<i. \<not> ruleMatches (priorityOrder ! j) (trim (toLowerCase ''Hotel dekat ATM''))"
       "\<forall>env. askHandler env ''Hotel dekat ATM'' =
          (Json200 \<lparr>reply = cannedReply (priorityOrder ! i), userMessage = ''Hotel dekat ATM'',
                    mapData = Some (searchQuery (priorityOrder ! i))\<rparr>, [])"
    by blast
  have "i = 0" using i(1) a by (cases i) auto
  then show ?thesis using i(2) h a by (simp add: priorityOrder_def)
qed

text \<open>
  Claim C10. The ATM rule is bare substring containment on the lower-cased message: every
  message that holds the letters a, t, m in a row, in any letter case and also inside a
  longer word, is answered with the search query ATM and the canned ATM sentence, whatever
  other patterns it matches, and without a call to the oracle.
\<close>

theorem atm_substring_rule:
  assumes "message = pre @ mid @ suf" "toLowerCase mid = ''atm''"
  shows "askHandler env message =
     (Json200 \<lparr>reply = ''Saya akan carikan ATM untuk Anda.'', userMessage = message,
               mapData = Some ''ATM''\<rparr>, [])"
proof -
  have "toLowerCase message = toLowerCase pre @ ''atm'' @ toLowerCase suf"
    using assms by (simp add: toLowerCase_def)
  then have "sublist ''atm'' (toLowerCase message)"
    by (metis sublist_appendI)
  then have "sublist ''atm'' (trim (toLowerCase message))"
    by (intro sublist_trim) (simp_all add: isWhiteSpace_def)
  then have "firstMatch (trim (toLowerCase message)) = Some ATM"
    by (simp add: firstMatch_def priorityOrder_def includesStr_def)
  from askHandler_rule [OF this] show ?thesis by simp
qed

text \<open>\<open>Restoran Atmosphere\<close> holds a restaurant keyword and, inside a word, \<open>Atm\<close>.\<close>

theorem atm_substring_rule_witness:
  "''Restoran Atmosphere'' = ''Restoran '' @ ''Atm'' @ ''osphere'' \<and> toLowerCase ''Atm'' = ''atm'' \<and>
   askHandler failingOracle ''Restoran Atmosphere'' =
     (Json200 \<lparr>reply = ''Saya akan carikan ATM untuk Anda.'', userMessage = ''Restoran Atmosphere'',
               mapData = Some ''ATM''\<rparr>, [])"
proof -
  have 1: "''Restoran Atmosphere'' = ''Restoran '' @ ''Atm'' @ ''osphere''" by simp
  have 2: "toLowerCase ''Atm'' = ''atm''" by code_simp
  from atm_substring_rule [OF 1 2] 1 2 show ?thesis by blast
qed

subsection \<open>The oracle stage\<close>

text \<open>
  When each of the two endpoints rejects (network error, timeout) or resolves with an
  absent or falsy content field, the handler answers with status 200, no category and the
  fixed reply of \<open>queryLLM\<close>.
\<close>

lemma oracle_unavailable_reply:
  assumes "firstMatch (trim (toLowerCase message)) = None"
    and "endpointFails (openWebUI env (sanitizeInput (llmPrompt message)))"
    and "endpointFails (ollama env (sanitizeInput (llmPrompt message)))"
  shows "askHandler env message =
     (Json200 \<lparr>reply = ''LLM service unavailable. Please try again later.'',
               userMessage = message, mapData = None\<rparr>,
      [(OpenWebUI, sanitizeInput (llmPrompt message)), (Ollama, sanitizeInput (llmPrompt message))])"
proof -
  have 1: "\<exists>e. postOpenWebUI env (sanitizeInput (llmPrompt message)) = Inl e"
    using assms(2) by (auto simp: endpointFails_def postOpenWebUI_def split: http_outcome.splits option.splits)
  have 2: "\<exists>e. postOllama env (sanitizeInput (llmPrompt message)) = Inl e"
    using assms(3) by (auto simp: endpointFails_def postOllama_def split: http_outcome.splits option.splits)
  have q: "queryLLM env (llmPrompt message) =
     (Inr (JString ''LLM service unavailable. Please try again later.''),
      [(OpenWebUI, sanitizeInput (llmPrompt message)), (Ollama, sanitizeInput (llmPrompt message))])"
    using 1 2 llmPrompt_sanitized [of message] by (auto simp: queryLLM_def Let_def)
  have s: "stripMarker ''LLM service unavailable. Please try again later.'' = ''LLM service unavailable. Please try again later.''"
    by (simp add: stripMarker_def marker_def)
  have m: "matchMarker ''LLM service unavailable. Please try again later.'' = None"
    by (simp add: matchMarker_def marker_def)
  have t: "trim ''LLM service unavailable. Please try again later.'' = ''LLM service unavailable. Please try again later.''"
    by (simp add: trim_def isWhiteSpace_def)
  show ?thesis
    unfolding askHandler_oracle [OF assms(1) q] s m t by simp
qed

text \<open>
  Claim C3 does not hold of the handler for every malformed response. \<open>queryLLM\<close> tests
  the content field for truthiness only, so content that is an array is returned to the
  handler. An array has \<open>includes\<close>, so the inner try/catch sees no error; it has no
  \<open>replace\<close>, and that call stands outside the inner try/catch. For the message
  \<open>apa kabar\<close>, which matches no rule, and a first endpoint whose content is an array of
  one text, the handler answers with status 500: no category, no reply. Content that is
  a number, which has no \<open>includes\<close>, is caught by the inner try/catch and answered with
  the apology \<open>Maaf, silakan coba lagi.\<close>
\<close>

theorem array_content_status_500:
  "firstMatch (trim (toLowerCase ''apa kabar'')) = None \<and>
   queryLLM arrayOracle (llmPrompt ''apa kabar'') =
     (Inr (JArray [JString ''Halo! Ada yang bisa saya bantu?'']),
      [(OpenWebUI, sanitizeInput (llmPrompt ''apa kabar''))]) \<and>
   askHandler arrayOracle ''apa kabar'' =
     (Json500, [(OpenWebUI, sanitizeInput (llmPrompt ''apa kabar''))]) \<and>
   fst (askHandler numberOracle ''apa kabar'') =
     Json200 \<lparr>reply = ''Maaf, silakan coba lagi.'', userMessage = ''apa kabar'',
              mapData = None\<rparr>"
proof -
  have 1: "firstMatch (trim (toLowerCase ''apa kabar'')) = None" by code_simp
  have 2: "queryLLM arrayOracle (llmPrompt ''apa kabar'') =
     (Inr (JArray [JString ''Halo! Ada yang bisa saya bantu?'']),
      [(OpenWebUI, sanitizeInput (llmPrompt ''apa kabar''))])"
    using llmPrompt_sanitized [of "''apa kabar''"]
    by (simp add: queryLLM_def Let_def postOpenWebUI_def arrayOracle_def)
  have 3: "askHandler arrayOracle ''apa kabar'' =
     (Json500, [(OpenWebUI, sanitizeInput (llmPrompt ''apa kabar''))])"
    using 1
    by (simp add: askHandler_def ruleStage_firstMatch truthy_def oracleStage_def 2
        callIncludes_def callReplace_def marker_def)
  have 4: "queryLLM numberOracle (llmPrompt ''apa kabar'') =
     (Inr (JNumber 42),
      [(OpenWebUI, sanitizeInput (llmPrompt ''apa kabar'')),
       (Ollama, sanitizeInput (llmPrompt ''apa kabar''))])"
    using llmPrompt_sanitized [of "''apa kabar''"]
    by (simp add: queryLLM_def Let_def postOpenWebUI_def postOllama_def numberOracle_def)
  have 5: "fst (askHandler numberOracle ''apa kabar'') =
     Json200 \<lparr>reply = ''Maaf, silakan coba lagi.'', userMessage = ''apa kabar'',
              mapData = None\<rparr>"
    by (simp add: askHandler_oracle_no_method [OF 1 4])
  show ?thesis
    using 1 2 3 5 by simp
qed

text \<open>
  Claim C4, as stated, fails: an oracle text that consists of the marker line alone
  leaves nothing once the marker is stripped, and the reply is the empty string.
\<close>

theorem reply_empty_counterexample:
  "fst (askHandler markerOnlyOracle ''lapar nih'') =
     Json200 \<lparr>reply = [], userMessage = ''lapar nih'', mapData = Some ''restaurants''\<rparr>"
  by code_simp

text \<open>
  Claim C4, amended. Whenever a rule matches, the handler answers with status 200 and a
  non-empty reply. When no rule matches and \<open>queryLLM\<close> returns a text, the handler
  answers with status 200 and the reply is that text with the first marker and the rest
  of its line removed, then trimmed; it is non-empty exactly when a character other than
  white space is left after the removal. When no rule matches and \<open>queryLLM\<close> returns a
  value that is neither a text nor an array, the handler answers with status 200 and the
  non-empty reply \<open>Maaf, silakan coba lagi.\<close> Nothing is said here of content that is an
  array.
\<close>

theorem reply_nonempty_cases:
  "(firstMatch (trim (toLowerCase message)) \<noteq> None \<longrightarrow>
      (\<exists>r. askHandler env message = (Json200 r, []) \<and> reply r \<noteq> [])) \<and>
   (firstMatch (trim (toLowerCase message)) = None \<and>
    queryLLM env (llmPrompt message) = (Inr (JString t), calls) \<longrightarrow>
      (\<exists>r. askHandler env message = (Json200 r, calls) \<and>
           reply r = trim (stripMarker t) \<and>
           (reply r \<noteq> [] \<longleftrightarrow> (\<exists>c\<in>set (stripMarker t). \<not> isWhiteSpace c)))) \<and>
   (firstMatch (trim (toLowerCase message)) = None \<and>
    queryLLM env (llmPrompt message) = (Inr v, calls) \<and> \<not> isText v \<and> \<not> isArray v \<longrightarrow>
      (\<exists>r. askHandler env message = (Json200 r, calls) \<and>
           reply r = ''Maaf, silakan coba lagi.'' \<and> reply r \<noteq> []))"
proof -
  have a: "\<exists>r. askHandler env message = (Json200 r, []) \<and> reply r \<noteq> []"
    if "firstMatch (trim (toLowerCase message)) \<noteq> None"
  proof -
    from that obtain c where c: "firstMatch (trim (toLowerCase message)) = Some c" by blast
    have "cannedReply c \<noteq> []" by (cases c) simp_all
    then show ?thesis
      unfolding askHandler_rule [OF c] by simp
  qed
  have b: "\<exists>r. askHandler env message = (Json200 r, calls) \<and>
           reply r = trim (stripMarker t) \<and>
           (reply r \<noteq> [] \<longleftrightarrow> (\<exists>c\<in>set (stripMarker t). \<not> isWhiteSpace c))"
    if "firstMatch (trim (toLowerCase message)) = None"
      "queryLLM env (llmPrompt message) = (Inr (JString t), calls)"
    unfolding askHandler_oracle [OF that] by (simp add: trim_nonempty_iff)
  have c: "\<exists>r. askHandler env message = (Json200 r, calls) \<and>
           reply r = ''Maaf, silakan coba lagi.'' \<and> reply r \<noteq> []"
    if "firstMatch (trim (toLowerCase message)) = None"
      "queryLLM env (llmPrompt message) = (Inr v, calls)" "\<not> isText v" "\<not> isArray v"
    unfolding askHandler_oracle_no_method [OF that] by simp
  show ?thesis
    using a b c by blast
qed

text \<open>
  A message with \<open>atm\<close> gets a non-empty reply; for the marker-only oracle the removal
  leaves no character and the reply is empty; content that is the number 42 gets the
  apology.
\<close>

theorem reply_nonempty_cases_witness:
  "firstMatch (trim (toLowerCase ''dimana atm terdekat'')) \<noteq> None \<and>
   (\<exists>r. askHandler markerOnlyOracle ''dimana atm terdekat'' = (Json200 r, []) \<and> reply r \<noteq> []) \<and>
   firstMatch (trim (toLowerCase ''lapar nih'')) = None \<and>
   (\<exists>r. askHandler markerOnlyOracle ''lapar nih'' =
          (Json200 r, [(OpenWebUI, sanitizeInput (llmPrompt ''lapar nih''))]) \<and> reply r = []) \<and>
   (\<exists>r. askHandler numberOracle ''lapar nih'' =
          (Json200 r, [(OpenWebUI, sanitizeInput (llmPrompt ''lapar nih'')),
                       (Ollama, sanitizeInput (llmPrompt ''lapar nih''))]) \<and>
        reply r = ''Maaf, silakan coba lagi.'')"
proof -
  have 1: "firstMatch (trim (toLowerCase ''dimana atm terdekat'')) \<noteq> None" by code_simp
  have 2: "firstMatch (trim (toLowerCase ''lapar nih'')) = None" by code_simp
  have 3: "queryLLM markerOnlyOracle (llmPrompt ''lapar nih'') =
     (Inr (JString ''LOCATION_SEARCH:restaurants''),
      [(OpenWebUI, sanitizeInput (llmPrompt ''lapar nih''))])"
    using llmPrompt_sanitized [of "''lapar nih''"]
    by (simp add: queryLLM_def Let_def postOpenWebUI_def markerOnlyOracle_def)
  have 4: "trim (stripMarker ''LOCATION_SEARCH:restaurants'') = []" by code_simp
  have 5: "queryLLM numberOracle (llmPrompt ''lapar nih'') =
     (Inr (JNumber 42),
      [(OpenWebUI, sanitizeInput (llmPrompt ''lapar nih'')),
       (Ollama, sanitizeInput (llmPrompt ''lapar nih''))])"
    using llmPrompt_sanitized [of "''lapar nih''"]
    by (simp add: queryLLM_def Let_def postOpenWebUI_def postOllama_def numberOracle_def)
  have 6: "\<not> isText (JNumber 42)" "\<not> isArray (JNumber 42)" by simp_all
  have a: "\<exists>r. askHandler markerOnlyOracle ''dimana atm terdekat'' = (Json200 r, []) \<and> reply r \<noteq> []"
    using reply_nonempty_cases [of "''dimana atm terdekat''" markerOnlyOracle] 1 by blast
  have b: "\<exists>r. askHandler markerOnlyOracle ''lapar nih'' =
          (Json200 r, [(OpenWebUI, sanitizeInput (llmPrompt ''lapar nih''))]) \<and> reply r = []"
    using reply_nonempty_cases [of "''lapar nih''" markerOnlyOracle
        "''LOCATION_SEARCH:restaurants''" "[(OpenWebUI, sanitizeInput (llmPrompt ''lapar nih''))]"]
      2 3 4 by auto
  have c: "\<exists>r. askHandler numberOracle ''lapar nih'' =
          (Json200 r, [(OpenWebUI, sanitizeInput (llmPrompt ''lapar nih'')),
                       (Ollama, sanitizeInput (llmPrompt ''lapar nih''))]) \<and>
        reply r = ''Maaf, silakan coba lagi.''"
    using reply_nonempty_cases [of "''lapar nih''" numberOracle _
        "[(OpenWebUI, sanitizeInput (llmPrompt ''lapar nih'')),
          (Ollama, sanitizeInput (llmPrompt ''lapar nih''))]" "JNumber 42"]
      2 5 6 by blast
  show ?thesis
    using 1 2 a b c by blast
qed

text \<open>
  Claim C5, as stated, fails: only the first marker and the rest of its line are removed.
  An oracle text with \<open>LOCATION_SEARCH:restaurants\<close> on two lines gives the search query
  \<open>restaurants\<close> and a reply that still holds the marker.
\<close>

theorem marker_strip_counterexample:
  "includesStr (''Baik. LOCATION_SEARCH:restaurants'' @ [CHR 0x0A] @ ''LOCATION_SEARCH:restaurants'')
     ''LOCATION_SEARCH:restaurants'' \<and>
   fst (askHandler twoMarkerOracle ''lapar nih'') =
     Json200 \<lparr>reply = ''Baik. '' @ [CHR 0x0A] @ ''LOCATION_SEARCH:restaurants'',
              userMessage = ''lapar nih'', mapData = Some ''restaurants''\<rparr> \<and>
   includesStr (''Baik. '' @ [CHR 0x0A] @ ''LOCATION_SEARCH:restaurants'') marker"
  by code_simp

text \<open>
  Claim C5, amended. When no rule matches and the oracle text holds the marker, with
  \<open>before\<close> the text in front of its first occurrence and \<open>after\<close> the text behind it:
  the search query is \<open>after\<close> up to the first line feed or double quote, trimmed and
  not validated (none when that is empty), and the reply is \<open>before\<close> followed by what
  comes behind the marker's line, trimmed. When the marker stands on the last line, the
  reply is \<open>before\<close>, trimmed, and holds no marker.
\<close>

theorem marker_extraction:
  assumes "firstMatch (trim (toLowerCase message)) = None"
    and "queryLLM env (llmPrompt message) = (Inr (JString (before @ marker @ after)), calls)"
    and "\<not> includesStr before marker"
  shows "\<exists>r. askHandler env message = (Json200 r, calls) \<and>
     userMessage r = message \<and>
     mapData r = (let q = trim (takeWhile (\<lambda>c. c \<noteq> CHR 0x0A \<and> c \<noteq> CHR 0x22) after)
                  in if q = [] then None else Some q) \<and>
     reply r = trim (before @ dropWhile (\<lambda>c. \<not> isLineTerminator c) after) \<and>
     ((\<forall>c\<in>set after. \<not> isLineTerminator c) \<longrightarrow>
        reply r = trim before \<and> \<not> includesStr (reply r) marker)"
proof -
  have s: "splitAt marker (before @ marker @ after) = Some (before, after)"
    using assms(3) by (rule splitAt_marker)
  have a: "askHandler env message =
     (Json200 \<lparr>reply = trim (before @ dropWhile (\<lambda>c. \<not> isLineTerminator c) after),
               userMessage = message,
               mapData = (let q = trim (takeWhile (\<lambda>c. c \<noteq> CHR 0x0A \<and> c \<noteq> CHR 0x22) after)
                          in if q = [] then None else Some q)\<rparr>, calls)"
    unfolding askHandler_oracle [OF assms(1,2)]
    by (simp add: stripMarker_def matchMarker_def s Let_def)
  have n: "\<not> sublist marker (trim before)"
    using assms(3) sublist_trim_self [of before] sublist_order.order_trans
    unfolding includesStr_def by blast
  show ?thesis
  proof (cases "\<forall>c\<in>set after. \<not> isLineTerminator c")
    case True
    then have d: "dropWhile (\<lambda>c. \<not> isLineTerminator c) after = []" by simp
    show ?thesis
      unfolding a d using n by (simp add: includesStr_def)
  next
    case False
    then show ?thesis
      unfolding a by auto
  qed
qed

text \<open>
  An oracle text that ends in \<open>LOCATION_SEARCH:restaurants\<close> gives the search query
  \<open>restaurants\<close> and the sentence in front of the marker as the reply.
\<close>

theorem marker_extraction_witness:
  "firstMatch (trim (toLowerCase ''lapar nih'')) = None \<and>
   \<not> includesStr ''Saya akan carikan restoran untuk Anda. '' marker \<and>
   askHandler restaurantOracle ''lapar nih'' =
     (Json200 \<lparr>reply = ''Saya akan carikan restoran untuk Anda.'', userMessage = ''lapar nih'',
               mapData = Some ''restaurants''\<rparr>,
      [(OpenWebUI, sanitizeInput (llmPrompt ''lapar nih'')),
       (Ollama, sanitizeInput (llmPrompt ''lapar nih''))]) \<and>
   \<not> includesStr ''Saya akan carikan restoran untuk Anda.'' marker"
proof -
  have 1: "firstMatch (trim (toLowerCase ''lapar nih'')) = None" by code_simp
  have 2: "queryLLM restaurantOracle (llmPrompt ''lapar nih'') =
     (Inr (JString (''Saya akan carikan restoran untuk Anda. '' @ marker @ ''restaurants'')),
      [(OpenWebUI, sanitizeInput (llmPrompt ''lapar nih'')),
       (Ollama, sanitizeInput (llmPrompt ''lapar nih''))])"
    by code_simp
  have 3: "\<not> includesStr ''Saya akan carikan restoran untuk Anda. '' marker" by code_simp
  have 4: "trim ''Saya akan carikan restoran untuk Anda. '' = ''Saya akan carikan restoran untuk Anda.''"
    by code_simp
  have 5: "trim (takeWhile (\<lambda>c. c \<noteq> CHR 0x0A \<and> c \<noteq> CHR 0x22) ''restaurants'') = ''restaurants''"
    by code_simp
  have 6: "\<forall>c\<in>set ''restaurants''. \<not> isLineTerminator c"
    by (simp add: isLineTerminator_def)
  from marker_extraction [OF 1 2 3] obtain r where
    r: "askHandler restaurantOracle ''lapar nih'' =
          (Json200 r, [(OpenWebUI, sanitizeInput (llmPrompt ''lapar nih'')),
                       (Ollama, sanitizeInput (llmPrompt ''lapar nih''))])"
       "userMessage r = ''lapar nih''"
       "mapData r = Some ''restaurants''"
       "reply r = trim ''Saya akan carikan restoran untuk Anda. ''"
       "\<not> includesStr (reply r) marker"
    unfolding 5 using 6 by (auto simp: Let_def)
  have "r = \<lparr>reply = ''Saya akan carikan restoran untuk Anda.'', userMessage = ''lapar nih'',
               mapData = Some ''restaurants''\<rparr>"
    using r(2-4) unfolding 4 by (cases r) simp
  with r(1,5) 1 3 6 show ?thesis
    unfolding 4 by simp
qed

section \<open>The location resolver\<close>

lemma getFallbackLocation_jakarta: "getFallbackLocation env = jakarta"
  by (simp add: getFallbackLocation_def split: sum.splits)

lemma getGPSLocation_source:
  "getGPSLocation env = (Inr c, calls) \<Longrightarrow> source c = Gps"
  by (auto simp: getGPSLocation_def
      split: option.splits position_outcome.splits GeolocationPosition.splits)

lemma getNetworkLocation_source:
  "getNetworkLocation env = (Inr c, calls) \<Longrightarrow> source c = Network"
  by (auto simp: getNetworkLocation_def
      split: option.splits position_outcome.splits GeolocationPosition.splits)

lemma getIPLocation_source:
  "getIPLocation env = (Some (Inr c), calls) \<Longrightarrow> source c = Ip"
  by (auto simp: getIPLocation_def
      split: fetch_outcome.splits ip_body.splits if_splits)

lemma getIPLocation_pending:
  "fst (getIPLocation env) = None \<longleftrightarrow> ipapi env = FetchPending"
  by (auto simp: getIPLocation_def
      split: fetch_outcome.splits ip_body.splits if_splits)

text \<open>
  The shape of every run: a cache hit, one of the three tiers, the fallback, or a tier
  chain that waits for the IP lookup for ever.
\<close>

lemma getCurrentLocation_cases:
  obtains
    (hit) c where "isCacheValid st (nowAtCheck env)" "cachedLocation st = Some c"
      "getCurrentLocation env st = (Some (Inr c), st, [])"
  | (tier) c calls where "\<not> isCacheValid st (nowAtCheck env)" "source c \<noteq> Fallback"
      "getCurrentLocation env st = (Some (Inr c), updateCache env c st, calls)"
  | (fallback) calls where "\<not> isCacheValid st (nowAtCheck env)"
      "isl (fst (getGPSLocation env))" "isl (fst (getNetworkLocation env))"
      "ipapi env \<noteq> FetchPending"
      "getCurrentLocation env st = (Some (Inr jakarta), st, calls)"
  | (pending) calls where "\<not> isCacheValid st (nowAtCheck env)"
      "isl (fst (getGPSLocation env))" "isl (fst (getNetworkLocation env))"
      "ipapi env = FetchPending"
      "getCurrentLocation env st = (None, st, calls)"
proof (cases "isCacheValid st (nowAtCheck env)")
  case True
  then obtain c where "cachedLocation st = Some c"
    by (auto simp: isCacheValid_def)
  with True show ?thesis
    by (intro hit [of c]) (simp_all add: getCurrentLocation_def)
next
  case False
  obtain r1 c1 where g: "getGPSLocation env = (r1, c1)" by (cases "getGPSLocation env")
  obtain r2 c2 where n: "getNetworkLocation env = (r2, c2)" by (cases "getNetworkLocation env")
  obtain r3 c3 where i: "getIPLocation env = (r3, c3)" by (cases "getIPLocation env")
  show ?thesis
  proof (cases r1)
    case (Inr c)
    with g False getGPSLocation_source [of env c c1] show ?thesis
      by (intro tier [of c c1]) (simp_all add: getCurrentLocation_def)
  next
    case e1: (Inl e1)
    show ?thesis
    proof (cases r2)
      case (Inr c)
      with g n e1 False getNetworkLocation_source [of env c c2] show ?thesis
        by (intro tier [of c "c1 @ c2"]) (simp_all add: getCurrentLocation_def)
    next
      case e2: (Inl e2)
      show ?thesis
      proof (cases r3)
        case None
        with g n i e1 e2 False getIPLocation_pending [of env] show ?thesis
          by (intro pending [of "c1 @ c2 @ c3"]) (simp_all add: getCurrentLocation_def)
      next
        case (Some r)
        then have np: "ipapi env \<noteq> FetchPending"
          using i getIPLocation_pending [of env] by auto
        show ?thesis
        proof (cases r)
          case (Inr c)
          with Some g n i e1 e2 False getIPLocation_source [of env c c3] show ?thesis
            by (intro tier [of c "c1 @ c2 @ c3"]) (simp_all add: getCurrentLocation_def)
        next
          case (Inl e3)
          with Some g n i e1 e2 False np show ?thesis
            by (intro fallback [of "c1 @ c2 @ c3"])
              (simp_all add: getCurrentLocation_def getFallbackLocation_jakarta)
        qed
      qed
    qed
  qed
qed

text \<open>
  As long as the IP lookup settles, \<open>getCurrentLocation\<close> returns a coordinate and never
  rejects; when the tier chain is entered and all three tiers fail, the coordinate is the
  Jakarta fallback and the state is left alone.
\<close>

lemma getCurrentLocation_settles:
  assumes "ipapi env \<noteq> FetchPending"
  shows "\<exists>c st' calls. getCurrentLocation env st = (Some (Inr c), st', calls)"
  using assms by (cases env st rule: getCurrentLocation_cases) auto

lemma getCurrentLocation_all_fail:
  assumes "\<not> isCacheValid st (nowAtCheck env)" "isl (fst (getGPSLocation env))"
    "isl (fst (getNetworkLocation env))" "fst (getIPLocation env) = Some (Inl e)"
  shows "fst (getCurrentLocation env st) = Some (Inr jakarta)"
    and "fst (snd (getCurrentLocation env st)) = st"
  using assms
  by (auto simp: getCurrentLocation_def getFallbackLocation_jakarta
      split: prod.splits sum.splits option.splits)

text \<open>
  Claim C1 does not hold of \<open>getCurrentLocation\<close> when the IP lookup neither answers nor
  fails. The first two tiers race their request against a timer of the service; the third
  passes \<open>timeout: 5000\<close> to \<open>fetch\<close>, which ignores it. With an empty cache, a GPS
  request that times out, a low-power request that is denied and an IP lookup that never
  settles, the call has tried all three sources and stays pending: it returns neither
  the static fallback nor anything else.
\<close>

theorem stalled_lookup_never_returns:
  "\<not> isCacheValid emptyState (nowAtCheck stalledEnv) \<and>
   isl (fst (getGPSLocation stalledEnv)) \<and>
   isl (fst (getNetworkLocation stalledEnv)) \<and>
   getIPLocation stalledEnv = (None, [FetchIpapi]) \<and>
   getCurrentLocation stalledEnv emptyState =
     (None, emptyState,
      [GetCurrentPosition gpsOptions, GetCurrentPosition networkOptions, FetchIpapi])"
  by (simp add: getCurrentLocation_def isCacheValid_def emptyState_def stalledEnv_def
      getGPSLocation_def getNetworkLocation_def getIPLocation_def gpsOptions_def
      networkOptions_def formatGeolocationError_def)

text \<open>
  Claim C6. If a cached location exists and is less than five minutes old, it is returned
  as it is, the state is left alone and no positioning source is called. Hence a second
  call, made while the cache left by the first one is fresh, returns the coordinate of the
  first call without calling a source.
\<close>

theorem cache_hit_no_tier:
  "(cachedLocation st = Some c \<and> nowAtCheck env - cacheTimestamp st < 5 * 60 * 1000 \<longrightarrow>
      getCurrentLocation env st = (Some (Inr c), st, [])) \<and>
   (getCurrentLocation env st = (r, st', calls) \<and> nowAtCheck env \<le> nowAtCheck env' \<and>
    isCacheValid st' (nowAtCheck env') \<longrightarrow>
      getCurrentLocation env' st' = (r, st', []))"
proof -
  have hit: "getCurrentLocation e s = (Some (Inr x), s, [])"
    if "cachedLocation s = Some x" "nowAtCheck e - cacheTimestamp s < 5 * 60 * 1000" for e s x
    using that by (simp add: getCurrentLocation_def isCacheValid_def CACHE_DURATION_def)
  have second: "getCurrentLocation env' st' = (r, st', [])"
    if run: "getCurrentLocation env st = (r, st', calls)"
      and mono: "nowAtCheck env \<le> nowAtCheck env'"
      and valid: "isCacheValid st' (nowAtCheck env')"
  proof (cases env st rule: getCurrentLocation_cases)
    case (hit x)
    with run valid show ?thesis
      by (simp add: getCurrentLocation_def)
  next
    case (tier x cs)
    with run have "r = Some (Inr x)" "cachedLocation st' = Some x"
      by (auto simp: updateCache_def Let_def)
    with valid show ?thesis
      by (simp add: getCurrentLocation_def)
  next
    case (fallback cs)
    with run have "st' = st" by simp
    with valid mono fallback(1) show ?thesis
      by (auto simp: isCacheValid_def)
  next
    case (pending cs)
    with run have "st' = st" by simp
    with valid mono pending(1) show ?thesis
      by (auto simp: isCacheValid_def)
  qed
  show ?thesis
    using hit second by blast
qed

text \<open>
  A fix cached 100 seconds ago is returned although every source would fail. A network
  fix cached by one call is returned by a call 88 seconds later, with no source called.
\<close>

theorem cache_hit_no_tier_witness:
  "cachedLocation cachedState = Some bandungFix \<and>
   nowAtCheck offlineEnv - cacheTimestamp cachedState < 5 * 60 * 1000 \<and>
   getCurrentLocation offlineEnv cachedState = (Some (Inr bandungFix), cachedState, []) \<and>
   nowAtCheck lowPowerEnv \<le> nowAtCheck (lowPowerEnv\<lparr>nowAtCheck := 2100000\<rparr>) \<and>
   isCacheValid (fst (snd (getCurrentLocation lowPowerEnv cachedState)))
     (nowAtCheck (lowPowerEnv\<lparr>nowAtCheck := 2100000\<rparr>)) \<and>
   getCurrentLocation (lowPowerEnv\<lparr>nowAtCheck := 2100000\<rparr>)
       (fst (snd (getCurrentLocation lowPowerEnv cachedState))) =
     (Some (Inr \<lparr>lat = - 6.3, lng = 106.9, accuracy = Some 1500, source = Network\<rparr>),
      fst (snd (getCurrentLocation lowPowerEnv cachedState)), [])"
proof -
  have 1: "cachedLocation cachedState = Some bandungFix"
    by (simp add: cachedState_def)
  have 2: "nowAtCheck offlineEnv - cacheTimestamp cachedState < 5 * 60 * 1000"
    by (simp add: cachedState_def offlineEnv_def)
  have first: "getCurrentLocation offlineEnv cachedState = (Some (Inr bandungFix), cachedState, [])"
    using cache_hit_no_tier [of cachedState bandungFix offlineEnv] 1 2 by blast
  obtain st' where run: "getCurrentLocation lowPowerEnv cachedState =
     (Some (Inr \<lparr>lat = - 6.3, lng = 106.9, accuracy = Some 1500, source = Network\<rparr>), st',
      [GetCurrentPosition gpsOptions, GetCurrentPosition networkOptions])"
    and st': "st' = updateCache lowPowerEnv
       \<lparr>lat = - 6.3, lng = 106.9, accuracy = Some 1500, source = Network\<rparr> cachedState"
    by (simp add: getCurrentLocation_def lowPowerEnv_def isCacheValid_def cachedState_def
        CACHE_DURATION_def getGPSLocation_def getNetworkLocation_def gpsOptions_def
        networkOptions_def)
  have 3: "nowAtCheck lowPowerEnv \<le> nowAtCheck (lowPowerEnv\<lparr>nowAtCheck := 2100000\<rparr>)"
    by (simp add: lowPowerEnv_def)
  have 4: "isCacheValid st' (nowAtCheck (lowPowerEnv\<lparr>nowAtCheck := 2100000\<rparr>))"
    by (simp add: st' isCacheValid_def updateCache_def Let_def lowPowerEnv_def CACHE_DURATION_def)
  have second: "getCurrentLocation (lowPowerEnv\<lparr>nowAtCheck := 2100000\<rparr>) st' =
     (Some (Inr \<lparr>lat = - 6.3, lng = 106.9, accuracy = Some 1500, source = Network\<rparr>), st', [])"
    using cache_hit_no_tier [of cachedState bandungFix lowPowerEnv _ st' _
        "lowPowerEnv\<lparr>nowAtCheck := 2100000\<rparr>"] run 3 4
    by blast
  show ?thesis
    using 1 2 first 3 4 second by (simp add: run)
qed

text \<open>
  Claim C7, as stated, fails: the fallback branch does not call \<open>updateCache\<close>. After a
  run that falls back to Jakarta from an empty cache, the in-memory cache and the stored
  entry are still empty.
\<close>

theorem fallback_not_cached_counterexample:
  "fst (getCurrentLocation offlineEnv emptyState) = Some (Inr jakarta) \<and>
   cachedLocation (fst (snd (getCurrentLocation offlineEnv emptyState))) = None \<and>
   lastKnownLocation (fst (snd (getCurrentLocation offlineEnv emptyState))) = None"
  by (simp add: getCurrentLocation_def isCacheValid_def emptyState_def offlineEnv_def
      getGPSLocation_def getNetworkLocation_def getIPLocation_def gpsOptions_def
      networkOptions_def formatGeolocationError_def getFallbackLocation_jakarta)

text \<open>
  Claim C7, amended. A run of the tier chain that takes its coordinate from the GPS, the
  network or the IP tier overwrites the in-memory cache with that coordinate and the time
  of the update, whatever was cached before, and overwrites the stored entry in the same
  way unless \<open>localStorage.setItem\<close> throws, in which case the stored entry keeps its old
  value. A run that ends in the static fallback leaves the cache and the stored entry as
  they were.
\<close>

theorem tier_result_overwrites_cache:
  assumes "\<not> isCacheValid st (nowAtCheck env)"
    and "getCurrentLocation env st = (Some (Inr c), st', calls)"
  shows "(source c \<noteq> Fallback \<longrightarrow>
            cachedLocation st' = Some c \<and> cacheTimestamp st' = nowAtUpdate env \<and>
            lastKnownLocation st' =
              (if setItemThrows env then lastKnownLocation st else Some (c, nowAtUpdate env))) \<and>
         (source c = Fallback \<longrightarrow> st' = st)"
proof (cases env st rule: getCurrentLocation_cases)
  case (hit x)
  with assms show ?thesis by simp
next
  case (tier x cs)
  with assms have "c = x" "st' = updateCache env x st" by auto
  with tier(2) show ?thesis
    by (simp add: updateCache_def Let_def)
next
  case (fallback cs)
  with assms have "c = jakarta" "st' = st" by auto
  then show ?thesis
    by (simp add: jakarta_def)
next
  case (pending cs)
  with assms show ?thesis by simp
qed

text \<open>
  A stale GPS fix of 25 m accuracy is replaced by a network fix of 1500 m accuracy; a run
  that falls back to Jakarta leaves the empty state empty.
\<close>

theorem tier_result_overwrites_cache_witness:
  "\<not> isCacheValid cachedState (nowAtCheck lowPowerEnv) \<and>
   getCurrentLocation lowPowerEnv cachedState =
     (Some (Inr \<lparr>lat = - 6.3, lng = 106.9, accuracy = Some 1500, source = Network\<rparr>),
      \<lparr>cachedLocation = Some \<lparr>lat = - 6.3, lng = 106.9, accuracy = Some 1500, source = Network\<rparr>,
       cacheTimestamp = 2012000,
       lastKnownLocation =
         Some (\<lparr>lat = - 6.3, lng = 106.9, accuracy = Some 1500, source = Network\<rparr>, 2012000)\<rparr>,
      [GetCurrentPosition gpsOptions, GetCurrentPosition networkOptions]) \<and>
   \<not> isCacheValid emptyState (nowAtCheck offlineEnv) \<and>
   fst (getCurrentLocation offlineEnv emptyState) = Some (Inr jakarta) \<and>
   fst (snd (getCurrentLocation offlineEnv emptyState)) = emptyState"
proof -
  have 1: "\<not> isCacheValid cachedState (nowAtCheck lowPowerEnv)"
    by (simp add: isCacheValid_def cachedState_def lowPowerEnv_def CACHE_DURATION_def)
  obtain st' where 2: "getCurrentLocation lowPowerEnv cachedState =
     (Some (Inr \<lparr>lat = - 6.3, lng = 106.9, accuracy = Some 1500, source = Network\<rparr>), st',
      [GetCurrentPosition gpsOptions, GetCurrentPosition networkOptions])"
    using 1
    by (simp add: getCurrentLocation_def lowPowerEnv_def
        getGPSLocation_def getNetworkLocation_def gpsOptions_def networkOptions_def)
  from tier_result_overwrites_cache [OF 1 2]
  have "cachedLocation st' = Some \<lparr>lat = - 6.3, lng = 106.9, accuracy = Some 1500, source = Network\<rparr>"
    "cacheTimestamp st' = 2012000"
    "lastKnownLocation st' = Some (\<lparr>lat = - 6.3, lng = 106.9, accuracy = Some 1500, source = Network\<rparr>, 2012000)"
    by (simp_all add: lowPowerEnv_def)
  then have a: "st' = \<lparr>cachedLocation = Some \<lparr>lat = - 6.3, lng = 106.9, accuracy = Some 1500, source = Network\<rparr>,
       cacheTimestamp = 2012000,
       lastKnownLocation =
         Some (\<lparr>lat = - 6.3, lng = 106.9, accuracy = Some 1500, source = Network\<rparr>, 2012000)\<rparr>"
    by (cases st') simp
  have 3: "\<not> isCacheValid emptyState (nowAtCheck offlineEnv)"
    by (simp add: isCacheValid_def emptyState_def)
  obtain st'' calls where 4: "getCurrentLocation offlineEnv emptyState = (Some (Inr jakarta), st'', calls)"
    using 3
    by (simp add: getCurrentLocation_def offlineEnv_def getGPSLocation_def
        getNetworkLocation_def getIPLocation_def gpsOptions_def networkOptions_def
        formatGeolocationError_def getFallbackLocation_jakarta)
  from tier_result_overwrites_cache [OF 3 4] have b: "st'' = emptyState"
    by (simp add: jakarta_def)
  show ?thesis
    using 1 2 a 3 4 b by simp
qed

text \<open>
  Claim C8 does not hold of \<open>watchPosition\<close>: it subscribes with
  \<open>enableHighAccuracy: false\<close>, the low-power mode, and labels every update \<open>gps\<close>, while
  \<open>getNetworkLocation\<close>, which asks in the same mode, labels the same position \<open>network\<close>.
\<close>

theorem watch_update_tagged_gps:
  "\<not> enableHighAccuracy watchOptions \<and>
   fst (watchPositionUpdate lowPowerEnv (Position (- 6.3) 106.9 1500) emptyState) =
     \<lparr>lat = - 6.3, lng = 106.9, accuracy = Some 1500, source = Gps\<rparr> \<and>
   \<not> enableHighAccuracy networkOptions \<and>
   fst (getNetworkLocation lowPowerEnv) =
     Inr \<lparr>lat = - 6.3, lng = 106.9, accuracy = Some 1500, source = Network\<rparr>"
  by (simp add: watchOptions_def networkOptions_def watchPositionUpdate_def Let_def
      getNetworkLocation_def lowPowerEnv_def)

end
